theory Spec2Isabelle
  imports Main "HOL-Library.Sublist" "HOL-Library.AList"
begin

section \<open>Strings, runes and the Go library functions the package calls\<close>

text \<open>
  A Go string is modelled as a \<^typ>\<open>string\<close>, one \<^typ>\<open>char\<close> per byte.  The package walks
  its input rune by rune; for ASCII text a rune is a byte, and this development covers
  ASCII text: the classification functions of package \<open>unicode\<close> and \<open>strings.ToLower\<close>
  are given as Go defines them on the code points below 128, and a byte from 128 on is
  in no class and is its own lower case.
\<close>

definition ascii :: "string \<Rightarrow> bool" where
  "ascii s = list_all (\<lambda>c. (of_char c :: nat) < 128) s"

definition IsSpace :: "char \<Rightarrow> bool" where
  \<comment> \<open>\<open>unicode.IsSpace\<close>: tab, line feed, vertical tab, form feed, carriage return, space\<close>
  "IsSpace c = ((9 \<le> (of_char c :: nat) \<and> (of_char c :: nat) \<le> 13) \<or> c = CHR '' '')"

definition IsLetter :: "char \<Rightarrow> bool" where
  "IsLetter c = ((65 \<le> (of_char c :: nat) \<and> (of_char c :: nat) \<le> 90) \<or>
                 (97 \<le> (of_char c :: nat) \<and> (of_char c :: nat) \<le> 122))"

definition IsDigit :: "char \<Rightarrow> bool" where
  "IsDigit c = (48 \<le> (of_char c :: nat) \<and> (of_char c :: nat) \<le> 57)"

definition toLowerRune :: "char \<Rightarrow> char" where
  "toLowerRune c =
     (if 65 \<le> (of_char c :: nat) \<and> (of_char c :: nat) \<le> 90
      then char_of ((of_char c :: nat) + 32) else c)"

definition ToLower :: "string \<Rightarrow> string" where
  \<comment> \<open>\<open>strings.ToLower\<close>\<close>
  "ToLower s = map toLowerRune s"

text \<open>\<open>strings.Split\<close> with a non-empty separator: the pieces between the successive,
  non-overlapping occurrences of the separator, found from the left.  (With the empty
  separator Go explodes the string into its characters.)\<close>

function Split_from :: "string \<Rightarrow> string \<Rightarrow> string \<Rightarrow> string list" where
  "Split_from sep cur [] = [cur]"
| "Split_from sep cur (c # cs) =
     (if sep \<noteq> [] \<and> prefix sep (c # cs)
      then cur # Split_from sep [] (drop (length sep) (c # cs))
      else Split_from sep (cur @ [c]) cs)"
  by pat_completeness auto
termination
  by (relation "measure (\<lambda>(sep, cur, s). length s)") auto

definition Split :: "string \<Rightarrow> string \<Rightarrow> string list" where
  "Split s sep = (if sep = [] then map (\<lambda>c. [c]) s else Split_from sep [] s)"

fun Join :: "string list \<Rightarrow> string \<Rightarrow> string" where
  \<comment> \<open>\<open>strings.Join\<close>\<close>
  "Join [] sep = []"
| "Join [x] sep = x"
| "Join (x # y # ys) sep = x @ sep @ Join (y # ys) sep"

definition HasSuffix :: "string \<Rightarrow> string \<Rightarrow> bool" where
  "HasSuffix s suf = suffix suf s"

definition Contains :: "string \<Rightarrow> string \<Rightarrow> bool" where
  "Contains s sub = sublist sub s"

subsection \<open>Package strconv, base 10\<close>

datatype NumErr = ErrSyntax | ErrRange

definition digitVal :: "char \<Rightarrow> nat" where
  "digitVal c = (of_char c :: nat) - 48"

text \<open>\<open>strconv.ParseUint(s, 10, bitSize)\<close>.  The value is returned beside the error, as Go
  does: 0 with a syntax error, the largest value of the size with a range error.  The
  scan stops at the first overflow, before it has looked at the characters that follow.\<close>

fun ParseUint_loop :: "nat \<Rightarrow> nat \<Rightarrow> string \<Rightarrow> nat \<times> NumErr option" where
  "ParseUint_loop bitSize n [] = (n, None)"
| "ParseUint_loop bitSize n (c # cs) =
     (if \<not> IsDigit c then (0, Some ErrSyntax)
      else if n \<ge> (2 ^ 64 - 1) div 10 + 1 then (2 ^ bitSize - 1, Some ErrRange)
      else let n1 = n * 10 + digitVal c in
           if n1 \<ge> 2 ^ 64 \<or> n1 > 2 ^ bitSize - 1 then (2 ^ bitSize - 1, Some ErrRange)
           else ParseUint_loop bitSize n1 cs)"

definition ParseUint :: "string \<Rightarrow> nat \<Rightarrow> nat \<times> NumErr option" where
  "ParseUint s bitSize = (if s = [] then (0, Some ErrSyntax) else ParseUint_loop bitSize 0 s)"

text \<open>\<open>strconv.ParseInt(s, 10, bitSize)\<close>: an optional sign, then \<open>ParseUint\<close>; a syntax
  error gives 0, a value out of range gives the nearest bound with a range error.\<close>

definition ParseInt :: "string \<Rightarrow> nat \<Rightarrow> int \<times> NumErr option" where
  "ParseInt s bitSize =
     (if s = [] then (0, Some ErrSyntax)
      else let neg = (hd s = CHR ''-'');
               s1 = (if hd s = CHR ''+'' \<or> hd s = CHR ''-'' then tl s else s);
               (un, err) = ParseUint s1 bitSize;
               cutoff = (2 :: nat) ^ (bitSize - 1)
           in if err = Some ErrSyntax then (0, Some ErrSyntax)
              else if \<not> neg \<and> un \<ge> cutoff then (int cutoff - 1, Some ErrRange)
              else if neg \<and> un > cutoff then (- int cutoff, Some ErrRange)
              else (if neg then - int un else int un, None))"

definition ParseBool :: "string \<Rightarrow> bool option" where
  \<comment> \<open>\<open>strconv.ParseBool\<close>; \<open>None\<close> is its syntax error\<close>
  "ParseBool s =
     (if s \<in> set [''1'', ''t'', ''T'', ''TRUE'', ''true'', ''True''] then Some True
      else if s \<in> set [''0'', ''f'', ''F'', ''FALSE'', ''false'', ''False''] then Some False
      else None)"

section \<open>The value store (config.go)\<close>

text \<open>A \<open>*string\<close> is a \<^typ>\<open>string option\<close>: \<open>None\<close> is the nil pointer of a key written
  without \<open>=\<close>.  A Go map is a partial function; a map entry holding a pointer to a
  struct is modelled by the struct itself, and a write through the pointer by an update of
  the map entry.\<close>

record ConfigValue =
  Name :: string
  OrigCaseName :: string
  Value :: "string option list"

type_synonym ConfigValueSet = "string \<rightharpoonup> ConfigValue"

record ConfigSubSection =
  SubName :: string
  SubValues :: ConfigValueSet

record ConfigSection =
  SecName :: string
  SecOrigCaseName :: string
  SubSections :: "string \<rightharpoonup> ConfigSubSection"
  SecValues :: ConfigValueSet

record Config =
  Sections :: "string \<rightharpoonup> ConfigSection"
  BaseValues :: ConfigValueSet
  Imports :: "string list"

definition NewConfig :: Config where
  "NewConfig = \<lparr>Sections = Map.empty, BaseValues = Map.empty, Imports = []\<rparr>"

text \<open>\<open>GetSection\<close>: the section stored under the lowercased name, created when asked for.
  The functions that may create return the store beside their result.\<close>

definition GetSection :: "Config \<Rightarrow> string \<Rightarrow> bool \<Rightarrow> Config \<times> ConfigSection option" where
  "GetSection self section createEmpty =
     (let slc = ToLower section; s = Sections self slc in
      if s \<noteq> None \<or> \<not> createEmpty then (self, s)
      else let sect = \<lparr>SecName = slc, SecOrigCaseName = section,
                        SubSections = Map.empty, SecValues = Map.empty\<rparr>
           in (self\<lparr>Sections := (Sections self)(slc \<mapsto> sect)\<rparr>, Some sect))"

definition GetSubSection ::
  "Config \<Rightarrow> string \<Rightarrow> string \<Rightarrow> bool \<Rightarrow> Config \<times> ConfigSubSection option" where
  "GetSubSection self section subSection createEmpty =
     (case GetSection self section createEmpty of
        (self1, None) \<Rightarrow> (self1, None)
      | (self1, Some s) \<Rightarrow>
          (let ss = SubSections s subSection in
           if ss \<noteq> None \<or> \<not> createEmpty then (self1, ss)
           else let sub = \<lparr>SubName = subSection, SubValues = Map.empty\<rparr>;
                    s1 = s\<lparr>SubSections := (SubSections s)(subSection \<mapsto> sub)\<rparr>
                in (self1\<lparr>Sections := (Sections self1)(ToLower section \<mapsto> s1)\<rparr>, Some sub)))"

text \<open>The address of a value set, which \<open>GetConfigValueSet\<close> returns: that of the base
  values, of a section's values or of a subsection's values.\<close>

datatype ValueSetRef = BaseRef | SectionRef string | SubSectionRef string string

fun ValueSetAt :: "Config \<Rightarrow> ValueSetRef \<Rightarrow> ConfigValueSet" where
  "ValueSetAt self BaseRef = BaseValues self"
| "ValueSetAt self (SectionRef slc) =
     (case Sections self slc of None \<Rightarrow> Map.empty | Some s \<Rightarrow> SecValues s)"
| "ValueSetAt self (SubSectionRef slc sub) =
     (case Sections self slc of None \<Rightarrow> Map.empty
      | Some s \<Rightarrow> (case SubSections s sub of None \<Rightarrow> Map.empty | Some ss \<Rightarrow> SubValues ss))"

fun StoreValueSet :: "Config \<Rightarrow> ValueSetRef \<Rightarrow> ConfigValueSet \<Rightarrow> Config" where
  "StoreValueSet self BaseRef vs = self\<lparr>BaseValues := vs\<rparr>"
| "StoreValueSet self (SectionRef slc) vs =
     (case Sections self slc of None \<Rightarrow> self
      | Some s \<Rightarrow> self\<lparr>Sections := (Sections self)(slc \<mapsto> s\<lparr>SecValues := vs\<rparr>)\<rparr>)"
| "StoreValueSet self (SubSectionRef slc sub) vs =
     (case Sections self slc of None \<Rightarrow> self
      | Some s \<Rightarrow> (case SubSections s sub of None \<Rightarrow> self
          | Some ss \<Rightarrow> self\<lparr>Sections := (Sections self)(slc \<mapsto>
              s\<lparr>SubSections := (SubSections s)(sub \<mapsto> ss\<lparr>SubValues := vs\<rparr>)\<rparr>)\<rparr>))"

definition GetConfigValueSet ::
  "Config \<Rightarrow> string \<Rightarrow> string \<Rightarrow> bool \<Rightarrow> Config \<times> ValueSetRef option" where
  "GetConfigValueSet self section subSection createEmpty =
     (if section = [] then (self, Some BaseRef)
      else if subSection = [] then
        (case GetSection self section createEmpty of
           (self1, None) \<Rightarrow> (self1, None)
         | (self1, Some s) \<Rightarrow> (self1, Some (SectionRef (ToLower section))))
      else
        (case GetSubSection self section subSection createEmpty of
           (self1, None) \<Rightarrow> (self1, None)
         | (self1, Some ss) \<Rightarrow> (self1, Some (SubSectionRef (ToLower section) subSection))))"

definition ParseSectionKey :: "string \<Rightarrow> string \<times> string \<times> string" where
  "ParseSectionKey full_key =
     (let out = Split full_key ''.''; cnt = length out in
      if cnt = 1 then ([], [], ToLower (out ! 0))
      else if cnt = 2 then (ToLower (out ! 0), [], ToLower (out ! 1))
      else if cnt = 3 then (ToLower (out ! 0), out ! 1, ToLower (out ! 2))
      else (ToLower (out ! 0), Join (take (cnt - 1 - 1) (drop 1 out)) ''.'',
            ToLower (out ! (cnt - 1))))"

text \<open>\<open>ConfigValueSet.GetConfigValues\<close>: the entry under the lowercased key, created with
  no value when asked for.\<close>

definition ConfigValueSet_GetConfigValues ::
  "ConfigValueSet \<Rightarrow> string \<Rightarrow> bool \<Rightarrow> ConfigValueSet \<times> ConfigValue option" where
  "ConfigValueSet_GetConfigValues self key createEmpty =
     (let lcKey = ToLower key; vals = self lcKey in
      if vals \<noteq> None \<or> \<not> createEmpty then (self, vals)
      else let v = \<lparr>Name = lcKey, OrigCaseName = key, Value = []\<rparr>
           in (self(lcKey \<mapsto> v), Some v))"

text \<open>\<open>Config.GetConfigValues\<close> returns a pointer to an entry: here the store, the address
  of the entry's value set and the entry.\<close>

definition GetConfigValues ::
  "Config \<Rightarrow> string \<Rightarrow> string \<Rightarrow> string \<Rightarrow> bool \<Rightarrow> Config \<times> (ValueSetRef \<times> ConfigValue) option" where
  "GetConfigValues self section subSection key createEmpty =
     (case GetConfigValueSet self section subSection createEmpty of
        (self1, None) \<Rightarrow> (self1, None)
      | (self1, Some r) \<Rightarrow>
          (case ConfigValueSet_GetConfigValues (ValueSetAt self1 r) key createEmpty of
             (vs, None) \<Rightarrow> (self1, None)
           | (vs, Some cv) \<Rightarrow> (StoreValueSet self1 r vs, Some (r, cv))))"

text \<open>\<open>AddKeyValue\<close> appends to the entry it is handed.  With \<open>createEmpty\<close> set the entry
  is never nil (lemma \<open>GetConfigValues_create\<close> below), so the nil branch, where Go would
  dereference a nil pointer, is never taken.\<close>

definition AddKeyValue :: "Config \<Rightarrow> string \<Rightarrow> string \<Rightarrow> string \<Rightarrow> string option \<Rightarrow> Config" where
  "AddKeyValue self section subSection key v =
     (case GetConfigValues self section subSection key True of
        (self1, None) \<Rightarrow> self1
      | (self1, Some (r, cvs)) \<Rightarrow>
          StoreValueSet self1 r
            ((ValueSetAt self1 r)(ToLower key \<mapsto> cvs\<lparr>Value := Value cvs @ [v]\<rparr>)))"

definition GetKeyValuesRaw :: "Config \<Rightarrow> string \<Rightarrow> ConfigValue option" where
  "GetKeyValuesRaw self key =
     (case ParseSectionKey key of (s, ss, k) \<Rightarrow>
        if k = [] then None
        else map_option snd (snd (GetConfigValues self s ss k False)))"

subsection \<open>Reading an entry\<close>

datatype ConvError =
    CannotConvertEmptyValue
  | NumError string NumErr
  | CannotConvertToBool string

definition HasValues :: "ConfigValue \<Rightarrow> bool" where
  "HasValues self = (length (Value self) \<noteq> 0)"

definition ValuesAsStrings :: "ConfigValue \<Rightarrow> string list" where
  "ValuesAsStrings self = map (\<lambda>v. case v of None \<Rightarrow> [] | Some s \<Rightarrow> s) (Value self)"

definition GetString :: "ConfigValue \<Rightarrow> string \<times> bool" where
  "GetString self =
     (let out = ValuesAsStrings self in
      if length out = 0 then ([], False) else (last out, True))"

text \<open>The conversions fill a slice of the entry's length and stop at the first value that
  does not convert, returning the slice as filled so far (zero from there on) and the
  error.\<close>

fun ValuesAsUints_loop :: "string option list \<Rightarrow> nat list \<times> ConvError option" where
  "ValuesAsUints_loop [] = ([], None)"
| "ValuesAsUints_loop (None # vs) =
     (replicate (Suc (length vs)) 0, Some CannotConvertEmptyValue)"
| "ValuesAsUints_loop (Some s # vs) =
     (case ParseUint s 64 of
        (val, Some e) \<Rightarrow> (replicate (Suc (length vs)) 0, Some (NumError s e))
      | (val, None) \<Rightarrow> (case ValuesAsUints_loop vs of (out, err) \<Rightarrow> (val # out, err)))"

definition ValuesAsUints :: "ConfigValue \<Rightarrow> nat list \<times> ConvError option" where
  "ValuesAsUints self = ValuesAsUints_loop (Value self)"

fun ValuesAsInts_loop :: "string option list \<Rightarrow> int list \<times> ConvError option" where
  "ValuesAsInts_loop [] = ([], None)"
| "ValuesAsInts_loop (None # vs) =
     (replicate (Suc (length vs)) 0, Some CannotConvertEmptyValue)"
| "ValuesAsInts_loop (Some s # vs) =
     (case ParseInt s 64 of
        (val, Some e) \<Rightarrow> (replicate (Suc (length vs)) 0, Some (NumError s e))
      | (val, None) \<Rightarrow> (case ValuesAsInts_loop vs of (out, err) \<Rightarrow> (val # out, err)))"

definition ValuesAsInts :: "ConfigValue \<Rightarrow> int list \<times> ConvError option" where
  "ValuesAsInts self = ValuesAsInts_loop (Value self)"

text \<open>\<open>ValuesAsBools\<close>, as written: the branch taken when \<open>ParseInt\<close> \<^emph>\<open>fails\<close> decides by the
  number, and a string that \<open>ParseInt\<close> accepts goes on to the comparison with the four
  words.\<close>

fun ValuesAsBools_loop :: "string option list \<Rightarrow> bool list \<times> ConvError option" where
  "ValuesAsBools_loop [] = ([], None)"
| "ValuesAsBools_loop (None # vs) =
     (case ValuesAsBools_loop vs of (out, err) \<Rightarrow> (False # out, err))"
| "ValuesAsBools_loop (Some s # vs) =
     (if length s = 0 then (case ValuesAsBools_loop vs of (out, err) \<Rightarrow> (False # out, err))
      else case ParseInt s 32 of
        (val, Some e) \<Rightarrow>
          (case ValuesAsBools_loop vs of (out, err) \<Rightarrow> ((val \<noteq> 0) # out, err))
      | (val, None) \<Rightarrow>
          (let lc = ToLower s in
           if lc = ''true'' \<or> lc = ''yes'' then
             (case ValuesAsBools_loop vs of (out, err) \<Rightarrow> (True # out, err))
           else if lc = ''false'' \<or> lc = ''no'' then
             (case ValuesAsBools_loop vs of (out, err) \<Rightarrow> (False # out, err))
           else (replicate (Suc (length vs)) False, Some (CannotConvertToBool s))))"

definition ValuesAsBools :: "ConfigValue \<Rightarrow> bool list \<times> ConvError option" where
  "ValuesAsBools self = ValuesAsBools_loop (Value self)"

definition GetInt :: "ConfigValue \<Rightarrow> int \<times> bool \<times> ConvError option" where
  "GetInt self =
     (case ValuesAsInts self of
        (out, Some err) \<Rightarrow> (0, False, Some err)
      | (out, None) \<Rightarrow> if length out = 0 then (0, False, None) else (last out, True, None))"

definition GetUint :: "ConfigValue \<Rightarrow> nat \<times> bool \<times> ConvError option" where
  "GetUint self =
     (case ValuesAsUints self of
        (out, Some err) \<Rightarrow> (0, False, Some err)
      | (out, None) \<Rightarrow> if length out = 0 then (0, False, None) else (last out, True, None))"

definition GetBool :: "ConfigValue \<Rightarrow> bool \<times> bool \<times> ConvError option" where
  "GetBool self =
     (case ValuesAsBools self of
        (out, Some err) \<Rightarrow> (False, False, Some err)
      | (out, None) \<Rightarrow> if length out = 0 then (False, False, None) else (last out, True, None))"

definition GetKeyValuesStrings :: "Config \<Rightarrow> string \<Rightarrow> string list option" where
  \<comment> \<open>\<open>None\<close> is the nil slice returned for a key that does not exist\<close>
  "GetKeyValuesStrings self key = map_option ValuesAsStrings (GetKeyValuesRaw self key)"

definition GetKeyValueAsString :: "Config \<Rightarrow> string \<Rightarrow> string \<times> bool" where
  "GetKeyValueAsString self key =
     (case GetKeyValuesRaw self key of None \<Rightarrow> ([], False) | Some cvs \<Rightarrow> GetString cvs)"

definition GetKeyValueAsInt :: "Config \<Rightarrow> string \<Rightarrow> int \<times> bool \<times> ConvError option" where
  "GetKeyValueAsInt self key =
     (case GetKeyValuesRaw self key of None \<Rightarrow> (0, False, None) | Some cvs \<Rightarrow> GetInt cvs)"

definition GetKeyValueAsBool :: "Config \<Rightarrow> string \<Rightarrow> bool \<times> bool \<times> ConvError option" where
  "GetKeyValueAsBool self key =
     (case GetKeyValuesRaw self key of None \<Rightarrow> (False, False, None) | Some cvs \<Rightarrow> GetBool cvs)"


section \<open>The parser\<close>

text \<open>
  The reason of a \<open>ParseError\<close>: one constructor for each message \<open>makeError\<close> is called
  with, holding the values the message is formatted from.
\<close>

datatype Reason =
    UnrecognisedEscape char
    \<comment> \<open>\<open>Unrecognised escape character: '%s'\<close>\<close>
  | UnexpectedInSectionName char string
    \<comment> \<open>\<open>Unexpected %s in section name '%s\<close>: the comment character, the section\<close>
  | UnexpectedOpenBracket string
    \<comment> \<open>\<open>Unexpected [ in section name '%s'\<close>\<close>
  | UnexpectedCloseBracket string
    \<comment> \<open>\<open>Unexpected ] in section name '%s'\<close>\<close>
  | QuoteBeforeSectionName
    \<comment> \<open>\<open>Unexpected " before section name\<close>\<close>
  | UnexpectedQuoteInSectionName string
    \<comment> \<open>\<open>Unexpected " in section name '%s'\<close>\<close>
  | EndOfLineInSection
    \<comment> \<open>\<open>Unexpected end of line when reading section\<close>\<close>
  | EndOfLineInSubsection
    \<comment> \<open>\<open>Unexpected end of line when reading subsection\<close>\<close>
  | UnexpectedAfterKey char string
    \<comment> \<open>\<open>Unexpected '%s' after key '%s', expected =, whitespace or newline\<close>: the
        character, the key\<close>
  | UnexpectedStartingKey char
    \<comment> \<open>\<open>Unexpected '%s' starting key, expected a letter\<close>\<close>
  | UnexpectedInKey char
    \<comment> \<open>\<open>Unexpected '%s' in key, expected a ascii letter, hyphen or digit\<close>\<close>
  | UnexpectedInEscape char
    \<comment> \<open>\<open>Unexpected '%s' in escape only double-quote, n, t and \ are allowed to be
        escaped.\<close>\<close>
  | NewlineInQuotedValue string
    \<comment> \<open>\<open>Unexpected newline in quoted value string: '%s'.\<close>\<close>

record ParseError =
  Message :: Reason
  Line :: string
  LineNo :: nat
  CharPos :: nat

text \<open>The parser's state.  \<open>Reader\<close> holds the lines the scanner has still to deliver.  (The
  struct's fields \<open>hadNonWhiteSpace\<close>, \<open>inEscape\<close> and \<open>inQuote\<close> are never read or
  written: every function keeps locals of these names.)\<close>

text \<open>(\<open>curSection\<close> is the field \<open>section\<close>.)\<close>

record Parser =
  Reader :: "string list"
  Config :: Config
  lineNo :: nat
  charPos :: nat
  curLine :: string
  curSection :: string
  subSection :: string

definition ReadLine :: "Parser \<Rightarrow> Parser option" where
  \<comment> \<open>\<open>None\<close>: the scanner has no further line\<close>
  "ReadLine self =
     (case Reader self of
        [] \<Rightarrow> None
      | l # ls \<Rightarrow> Some (self\<lparr>Reader := ls, lineNo := lineNo self + 1, charPos := 0, curLine := l\<rparr>))"

definition GetCurLine :: "Parser \<Rightarrow> string" where
  "GetCurLine self =
     (if charPos self \<ge> length (curLine self) then [] else drop (charPos self) (curLine self))"

definition makeError :: "Parser \<Rightarrow> Reason \<Rightarrow> ParseError" where
  "makeError self reason =
     \<lparr>Message = reason, Line = curLine self, LineNo = lineNo self, CharPos = charPos self\<rparr>"

definition advance :: "Parser \<Rightarrow> Parser" where
  \<comment> \<open>\<open>self.charPos++\<close>\<close>
  "advance self = self\<lparr>charPos := charPos self + 1\<rparr>"

subsection \<open>Values\<close>

text \<open>The loop of \<open>readValue\<close> over the rest of the line.  It either returns the value at
  a comment character, or runs to the end of the line and leaves its locals
  (\<open>hadNonWhiteSpace\<close>, \<open>spaceRun\<close>, \<open>inEscape\<close>, \<open>value\<close>, \<open>quoted\<close>) to the code that
  follows the loop.\<close>

datatype ValueScan = Returned string | Ended bool string bool string bool

fun readValue_loop ::
  "Parser \<Rightarrow> bool \<Rightarrow> string \<Rightarrow> bool \<Rightarrow> string \<Rightarrow> bool \<Rightarrow> string \<Rightarrow> ParseError + Parser \<times> ValueScan"
  where
  "readValue_loop self hadNonWhiteSpace spaceRun inEscape val quoted [] =
     Inr (self, Ended hadNonWhiteSpace spaceRun inEscape val quoted)"
| "readValue_loop self hadNonWhiteSpace spaceRun inEscape val quoted (r # text) =
     (let self = advance self in
      if IsSpace r then
        readValue_loop self hadNonWhiteSpace
          (if hadNonWhiteSpace then spaceRun @ [r] else spaceRun) inEscape val quoted text
      else if r = CHR 0x5C \<and> \<not> inEscape then
        readValue_loop self hadNonWhiteSpace spaceRun True val quoted text
      else if \<not> quoted \<and> (r = CHR '';'' \<or> r = CHR ''#'') then
        Inr (self, Returned val)
      else
        let val = (if spaceRun \<noteq> [] then val @ spaceRun else val) in
        if r = CHR '';'' \<or> r = CHR ''#'' then
          readValue_loop self True [] inEscape (val @ [r]) quoted text
        else if inEscape then
          (if r = CHR 0x22 then readValue_loop self True [] False (val @ [CHR 0x22]) quoted text
           else if r = CHR ''t'' then readValue_loop self True [] False (val @ [CHR 0x09]) quoted text
           else if r = CHR ''n'' then readValue_loop self True [] False (val @ [CHR 0x0A]) quoted text
           else if r = CHR 0x5C then readValue_loop self True [] False (val @ [CHR 0x5C]) quoted text
           else Inl (makeError self (UnexpectedInEscape r)))
        else if r = CHR 0x22 then
          readValue_loop self True [] inEscape val (\<not> quoted) text
        else readValue_loop self True [] inEscape (val @ [r]) quoted text)"

lemma readValue_loop_Reader:
  "readValue_loop self h sr e v q ln = Inr (self', res) \<Longrightarrow> Reader self = R \<Longrightarrow> Reader self' = R"
proof (induction ln arbitrary: self h sr e v q)
  case Nil
  then show ?case by simp
next
  case (Cons r ln)
  have R: "Reader (advance self) = R"
    using Cons.prems(2) by (simp add: advance_def)
  show ?case
    using Cons.prems(1) Cons.IH[OF _ R] R
    by (simp add: Let_def split: if_splits)
qed

text \<open>\<open>readValue\<close>: a line that ends inside an escape continues on the next line, if the
  scanner has one.\<close>

function readValue :: "Parser \<Rightarrow> bool \<Rightarrow> string \<Rightarrow> ParseError + Parser \<times> string" where
  "readValue self hadNonWhiteSpace spaceRun =
     (case readValue_loop self hadNonWhiteSpace spaceRun False [] False (GetCurLine self) of
        Inl err \<Rightarrow> Inl err
      | Inr (self1, Returned val) \<Rightarrow> Inr (self1, val)
      | Inr (self1, Ended hadNonWhiteSpace1 spaceRun1 inEscape val quoted) \<Rightarrow>
          if quoted then Inl (makeError self1 (NewlineInQuotedValue val))
          else if inEscape then
            (case ReadLine self1 of
               Some self2 \<Rightarrow>
                 (case readValue self2 hadNonWhiteSpace1 spaceRun1 of
                    Inl err \<Rightarrow> Inl err
                  | Inr (self3, next) \<Rightarrow> Inr (self3, val @ next))
             | None \<Rightarrow> Inr (self1, val))
          else Inr (self1, val))"
  by pat_completeness auto
termination
proof (relation "measure (\<lambda>(self, h, sr). length (Reader self))", goal_cases)
  case 1
  show ?case by simp
next
  case 2
  then show ?case
    by (auto simp: ReadLine_def split: list.splits dest: readValue_loop_Reader[OF _ refl])
qed

declare readValue.simps [simp del]

subsection \<open>Keys\<close>

fun readKeyValue_loop :: "Parser \<Rightarrow> bool \<Rightarrow> bool \<Rightarrow> string \<Rightarrow> string \<Rightarrow> ParseError + Parser" where
  "readKeyValue_loop self hadNonWhiteSpace doneKey key [] =
     (if key \<noteq> [] then
        Inr (self\<lparr>Config := AddKeyValue (Config self) (curSection self) (subSection self) key None\<rparr>)
      else Inr self)"
| "readKeyValue_loop self hadNonWhiteSpace doneKey key (r # text) =
     (let self = advance self in
      if IsSpace r then
        readKeyValue_loop self hadNonWhiteSpace (if hadNonWhiteSpace then True else doneKey) key text
      else if r = CHR ''='' then
        (case readValue self False [] of
           Inl err \<Rightarrow> Inl err
         | Inr (self1, val) \<Rightarrow>
             Inr (self1\<lparr>Config :=
               AddKeyValue (Config self1) (curSection self1) (subSection self1) key (Some val)\<rparr>))
      else if doneKey then Inl (makeError self (UnexpectedAfterKey r key))
      else if \<not> IsLetter r \<and> \<not> hadNonWhiteSpace then
        Inl (makeError self (UnexpectedStartingKey r))
      else if \<not> IsLetter r \<and> r \<noteq> CHR ''-'' \<and> \<not> IsDigit r then
        Inl (makeError self (UnexpectedInKey r))
      else readKeyValue_loop self True doneKey (key @ [r]) text)"

definition readKeyValue :: "Parser \<Rightarrow> ParseError + Parser" where
  "readKeyValue self = readKeyValue_loop self False False [] (GetCurLine self)"

subsection \<open>Section headers\<close>

fun readSubsection_loop :: "Parser \<Rightarrow> bool \<Rightarrow> bool \<Rightarrow> string \<Rightarrow> ParseError + Parser" where
  "readSubsection_loop self inSubSection inEscape [] =
     Inl (makeError self EndOfLineInSubsection)"
| "readSubsection_loop self inSubSection inEscape (r # text) =
     (let self = advance self in
      if inEscape then
        (if r = CHR 0x22 then
           readSubsection_loop (self\<lparr>subSection := subSection self @ [CHR 0x22]\<rparr>) inSubSection False text
         else if r = CHR ''t'' then
           readSubsection_loop (self\<lparr>subSection := subSection self @ [CHR 0x09]\<rparr>) inSubSection False text
         else if r = CHR ''n'' then
           readSubsection_loop (self\<lparr>subSection := subSection self @ [CHR 0x0A]\<rparr>) inSubSection False text
         else if r = CHR 0x5C then
           readSubsection_loop (self\<lparr>subSection := subSection self @ [CHR 0x5C]\<rparr>) inSubSection False text
         else readSubsection_loop self inSubSection False text)
      else if IsSpace r then
        readSubsection_loop
          (if inSubSection then self\<lparr>subSection := subSection self @ [r]\<rparr> else self)
          inSubSection inEscape text
      else if r = CHR 0x22 then
        (if inSubSection then Inr self else readSubsection_loop self True inEscape text)
      else if r = CHR 0x5C then readSubsection_loop self inSubSection True text
      else readSubsection_loop (self\<lparr>subSection := subSection self @ [r]\<rparr>) inSubSection inEscape text)"

definition readSubsection :: "Parser \<Rightarrow> ParseError + Parser" where
  "readSubsection self =
     (let self = self\<lparr>subSection := []\<rparr> in
      readSubsection_loop self False False (GetCurLine self))"

fun readSection_loop :: "Parser \<Rightarrow> bool \<Rightarrow> string \<Rightarrow> ParseError + Parser" where
  "readSection_loop self inSection [] = Inl (makeError self EndOfLineInSection)"
| "readSection_loop self inSection (r # text) =
     (let self = advance self in
      if IsSpace r then readSection_loop self inSection text
      else if r = CHR '';'' \<or> r = CHR ''#'' then
        (if inSection then Inl (makeError self (UnexpectedInSectionName r (curSection self)))
         else Inr self)
      else if r = CHR ''['' then
        (if curSection self \<noteq> [] \<or> inSection
         then Inl (makeError self (UnexpectedOpenBracket (curSection self)))
         else readSection_loop self True text)
      else if r = CHR '']'' then
        (if \<not> inSection then Inl (makeError self (UnexpectedCloseBracket (curSection self)))
         else readKeyValue self)
      else if r = CHR 0x22 then
        (if subSection self = [] then
           (if curSection self = [] then Inl (makeError self QuoteBeforeSectionName)
            else readSubsection (self\<lparr>charPos := charPos self - 1\<rparr>))
         else Inl (makeError self (UnexpectedQuoteInSectionName (curSection self))))
      else readSection_loop (self\<lparr>curSection := curSection self @ [r]\<rparr>) inSection text)"

definition readSection :: "Parser \<Rightarrow> ParseError + Parser" where
  "readSection self =
     (let self = self\<lparr>curSection := [], subSection := []\<rparr> in
      readSection_loop self False (GetCurLine self))"

subsection \<open>Lines\<close>

fun readKeyOrSection_loop ::
  "Parser \<Rightarrow> bool \<Rightarrow> bool \<Rightarrow> bool \<Rightarrow> string \<Rightarrow> string \<Rightarrow> ParseError + Parser" where
  "readKeyOrSection_loop self hadNonWhiteSpace inQuote inEscape out [] = Inr self"
| "readKeyOrSection_loop self hadNonWhiteSpace inQuote inEscape out (r # text) =
     (let self = advance self in
      if IsSpace r then
        (if \<not> hadNonWhiteSpace then
           readKeyOrSection_loop self hadNonWhiteSpace inQuote inEscape out text
         else if inEscape then Inl (makeError self (UnrecognisedEscape r))
         else readKeyOrSection_loop self hadNonWhiteSpace inQuote inEscape
                (if inQuote then out @ [r] else out) text)
      else if r = CHR '';'' \<or> r = CHR ''#'' then Inr self
      else
        let self = self\<lparr>charPos := charPos self - 1\<rparr> in
        if r = CHR ''['' then readSection self else readKeyValue self)"

definition readKeyOrSection :: "Parser \<Rightarrow> ParseError + Parser" where
  "readKeyOrSection self = readKeyOrSection_loop self False False False [] (GetCurLine self)"

text \<open>No function of the parser puts a line back: this is what makes \<open>Read\<close> terminate.\<close>

lemma readValue_Reader:
  "readValue self h sr = Inr (self', v) \<Longrightarrow> length (Reader self') \<le> length (Reader self)"
proof (induction self h sr arbitrary: self' v rule: readValue.induct)
  case (1 self h sr)
  show ?case
  proof (cases "readValue_loop self h sr False [] False (GetCurLine self)")
    case (Inl e)
    with "1.prems" show ?thesis by (simp add: readValue.simps[of self h sr])
  next
    case (Inr pr)
    obtain self1 res where pr: "pr = (self1, res)" by (cases pr)
    have R1: "Reader self1 = Reader self"
      using readValue_loop_Reader[OF Inr[unfolded pr] refl] .
    show ?thesis
    proof (cases res)
      case (Returned val)
      with "1.prems" Inr pr R1 show ?thesis by (simp add: readValue.simps[of self h sr])
    next
      case (Ended h1 sr1 e val q)
      show ?thesis
      proof (cases "\<not> q \<and> e \<and> ReadLine self1 \<noteq> None")
        case False
        with "1.prems" Inr pr R1 Ended show ?thesis
          by (auto simp: readValue.simps[of self h sr] split: if_splits option.splits)
      next
        case True
        then obtain self2 where s2: "ReadLine self1 = Some self2" by auto
        have L2: "length (Reader self2) < length (Reader self1)"
          using s2 by (auto simp: ReadLine_def split: list.splits)
        from True s2 "1.prems" Inr pr Ended obtain self3 nxt where
          r3: "readValue self2 h1 sr1 = Inr (self3, nxt)" and eq: "self' = self3"
          by (auto simp: readValue.simps[of self h sr] split: sum.splits)
        have "length (Reader self3) \<le> length (Reader self2)"
          using "1.IH"[OF Inr[unfolded pr] refl Ended _ _ s2 r3] True
          by simp
        with L2 R1 eq show ?thesis by simp
      qed
    qed
  qed
qed

lemma Reader_advance [simp]: "Reader (advance self) = Reader self"
  by (simp add: advance_def)

lemma readKeyValue_loop_Reader:
  "readKeyValue_loop self h d key ln = Inr self' \<Longrightarrow> length (Reader self) \<le> n \<Longrightarrow>
     length (Reader self') \<le> n"
proof (induction ln arbitrary: self h d key)
  case Nil
  then show ?case by (auto split: if_splits)
next
  case (Cons r ln)
  have R: "length (Reader (advance self)) \<le> n" using Cons.prems(2) by simp
  show ?case
    using Cons.prems(1) Cons.IH[OF _ R] R
    by (auto simp: Let_def split: if_splits sum.splits dest!: readValue_Reader)
qed

lemma readSubsection_loop_Reader:
  "readSubsection_loop self i e ln = Inr self' \<Longrightarrow> length (Reader self) \<le> n \<Longrightarrow>
     length (Reader self') \<le> n"
proof (induction ln arbitrary: self i e)
  case Nil
  then show ?case by simp
next
  case (Cons r ln)
  have R: "\<And>f. length (Reader (advance self\<lparr>subSection := f\<rparr>)) \<le> n"
    "length (Reader (advance self)) \<le> n" using Cons.prems(2) by simp_all
  show ?case
    using Cons.prems(1) Cons.IH[OF _ R(1)] Cons.IH[OF _ R(2)] R
    by (auto simp: Let_def split: if_splits)
qed

lemma readSection_loop_Reader:
  "readSection_loop self i ln = Inr self' \<Longrightarrow> length (Reader self) \<le> n \<Longrightarrow>
     length (Reader self') \<le> n"
proof (induction ln arbitrary: self i)
  case Nil
  then show ?case by simp
next
  case (Cons r ln)
  have R: "\<And>f. length (Reader (advance self\<lparr>curSection := f\<rparr>)) \<le> n"
    "length (Reader (advance self)) \<le> n" using Cons.prems(2) by simp_all
  show ?case
    using Cons.prems(1) Cons.IH[OF _ R(1)] Cons.IH[OF _ R(2)] R
      readKeyValue_loop_Reader[of "advance self" False False "[]" _ self' n]
      readSubsection_loop_Reader[of _ False False _ self' n]
    by (auto simp: Let_def readKeyValue_def readSubsection_def split: if_splits)
qed

lemma readKeyOrSection_Reader:
  "readKeyOrSection_loop self h q e out ln = Inr self' \<Longrightarrow> length (Reader self) \<le> n \<Longrightarrow>
     length (Reader self') \<le> n"
proof (induction ln arbitrary: self h q e out)
  case Nil
  then show ?case by simp
next
  case (Cons r ln)
  have R: "length (Reader (advance self)) \<le> n" using Cons.prems(2) by simp
  show ?case
    using Cons.prems(1) Cons.IH[OF _ R] R
      readKeyValue_loop_Reader[of _ False False "[]" _ self' n]
      readSection_loop_Reader[of _ False _ self' n]
    by (auto simp: Let_def readKeyValue_def readSection_def split: if_splits)
qed

text \<open>\<open>Read\<close>: line by line until the scanner is exhausted or a line fails.\<close>

function Read :: "Parser \<Rightarrow> ParseError + Parser" where
  "Read self =
     (case ReadLine self of
        None \<Rightarrow> Inr self
      | Some self1 \<Rightarrow>
          if curLine self1 = [] then Read self1
          else (case readKeyOrSection self1 of
                  Inl err \<Rightarrow> Inl err
                | Inr self2 \<Rightarrow> Read self2))"
  by pat_completeness auto
termination
proof (relation "measure (\<lambda>self. length (Reader self))", goal_cases)
  case 1
  show ?case by simp
next
  case 2
  then show ?case by (auto simp: ReadLine_def split: list.splits)
next
  case 3
  then show ?case
    by (auto simp: ReadLine_def readKeyOrSection_def split: list.splits
             dest!: readKeyOrSection_Reader[OF _ order_refl])
qed

declare Read.simps [simp del]

text \<open>\<open>bufio.ScanLines\<close> over the whole input: the text up to each line feed, without a
  carriage return before it; what is left after the last line feed is a line when it is
  not empty.  The scanner gives up at a line of more than 65535 bytes (its buffer holds
  \<open>bufio.MaxScanTokenSize\<close> bytes, the terminator among them), and \<open>Read\<close>, which does
  not ask the scanner for its error, then takes the input to end there.\<close>

definition dropCR :: "string \<Rightarrow> string" where
  "dropCR l = (if l \<noteq> [] \<and> last l = CHR 0x0D then butlast l else l)"

fun ScanLines_from :: "string \<Rightarrow> string \<Rightarrow> string list" where
  "ScanLines_from cur [] = (if cur = [] \<or> length cur \<ge> 65536 then [] else [dropCR cur])"
| "ScanLines_from cur (c # cs) =
     (if c = CHR 0x0A then
        (if length cur \<ge> 65536 then [] else dropCR cur # ScanLines_from [] cs)
      else ScanLines_from (cur @ [c]) cs)"

definition ScanLines :: "string \<Rightarrow> string list" where
  "ScanLines data = ScanLines_from [] data"

definition NewConfigFromString :: "string \<Rightarrow> ParseError + Config" where
  "NewConfigFromString data =
     (case Read \<lparr>Reader = ScanLines data, Config = NewConfig, lineNo = 0, charPos = 0,
                 curLine = [], curSection = [], subSection = []\<rparr> of
        Inl err \<Rightarrow> Inl err
      | Inr p \<Rightarrow> Inr (Config p))"

section \<open>The serializer (config.go)\<close>

text \<open>\<open>strings.Replace(s, old, new, -1)\<close> for an \<open>old\<close> of one character.\<close>

definition ReplaceAll :: "string \<Rightarrow> char \<Rightarrow> string \<Rightarrow> string" where
  "ReplaceAll s old new = concat (map (\<lambda>c. if c = old then new else [c]) s)"

definition EscapeValueString :: "string \<Rightarrow> string" where
  "EscapeValueString inp =
     (let quoted = ReplaceAll inp (CHR 0x5C) [CHR 0x5C, CHR 0x5C];
          quoted = ReplaceAll quoted (CHR 0x22) [CHR 0x5C, CHR 0x22];
          quoted = ReplaceAll quoted (CHR 0x09) [CHR 0x5C, CHR 0x09];
          quoted = ReplaceAll quoted (CHR 0x0A) [CHR 0x5C, CHR 0x0A]
      in quoted)"

definition ContainsAny :: "string \<Rightarrow> string \<Rightarrow> bool" where
  "ContainsAny s chars = (\<exists>c \<in> set s. c \<in> set chars)"

text \<open>The lines of one entry: a tab and the key as first written, then \<open> = \<close> and the
  escaped value unless the value is nil, then a line feed.\<close>

fun String_values :: "string \<Rightarrow> string option list \<Rightarrow> string" where
  "String_values key [] = []"
| "String_values key (None # vs) = [CHR 0x09] @ key @ [CHR 0x0A] @ String_values key vs"
| "String_values key (Some v # vs) =
     (let escaped = EscapeValueString v;
          escaped = (if length escaped > 1 \<and>
                        (IsSpace (last escaped) \<or> ContainsAny escaped ''#;!$`'')
                     then [CHR 0x22] @ escaped @ [CHR 0x22] else escaped)
      in [CHR 0x09] @ key @ '' = '' @ escaped @ [CHR 0x0A] @ String_values key vs)"

text \<open>Go visits the keys of a map in an order it leaves unspecified.  The serializer
  therefore takes the order as a parameter: the keys of the base values, of each section
  and of each subsection, the names of the sections, and of each section's subsections,
  in the order in which \<open>range\<close> yields them.\<close>

record RangeOrder =
  keysOf :: "ValueSetRef \<Rightarrow> string list"
  sectionsOrder :: "string list"
  subSectionsOf :: "string \<Rightarrow> string list"

definition ConfigValueSet_String :: "string list \<Rightarrow> ConfigValueSet \<Rightarrow> string" where
  "ConfigValueSet_String keys self =
     concat (map (\<lambda>k. case self k of
                          None \<Rightarrow> []
                        | Some cv \<Rightarrow> if length (Value cv) = 0 then []
                                     else String_values (OrigCaseName cv) (Value cv)) keys)"

definition ConfigSection_String :: "RangeOrder \<Rightarrow> ConfigSection \<Rightarrow> string" where
  "ConfigSection_String ord self =
     (let out = ConfigValueSet_String (keysOf ord (SectionRef (SecName self))) (SecValues self);
          out = (if out \<noteq> [] then ''['' @ SecOrigCaseName self @ '']'' @ [CHR 0x0A] @ out else out)
      in out @ concat (map (\<lambda>n. case SubSections self n of
            None \<Rightarrow> []
          | Some ss \<Rightarrow>
              (let ssOut = ConfigValueSet_String
                             (keysOf ord (SubSectionRef (SecName self) n)) (SubValues ss)
               in if ssOut \<noteq> [] then
                    ''['' @ SecOrigCaseName self @ '' '' @ [CHR 0x22] @
                    EscapeValueString (SubName ss) @ [CHR 0x22] @ '']'' @ [CHR 0x0A] @ ssOut
                  else [])) (subSectionsOf ord (SecName self))))"

definition Config_String :: "RangeOrder \<Rightarrow> Config \<Rightarrow> string" where
  "Config_String ord self =
     ConfigValueSet_String (keysOf ord BaseRef) (BaseValues self) @
     concat (map (\<lambda>n. case Sections self n of
                          None \<Rightarrow> []
                        | Some s \<Rightarrow> ConfigSection_String ord s) (sectionsOrder ord))"

section \<open>Notions the properties are stated with\<close>

text \<open>A value set is \<^emph>\<open>normalised\<close> when every entry is stored under its \<open>Name\<close> and its
  \<open>Name\<close> is the lower case of the name it was first written with.  Two entries of one
  set then never share a normalised name.\<close>

definition wf_values :: "ConfigValueSet \<Rightarrow> bool" where
  "wf_values vs = (\<forall>k cv. vs k = Some cv \<longrightarrow> Name cv = k \<and> ToLower (OrigCaseName cv) = k)"

definition wf_config :: "Config \<Rightarrow> bool" where
  "wf_config cfg = (\<forall>r. wf_values (ValueSetAt cfg r))"

text \<open>The value set a section and subsection name designate (\<open>GetConfigValueSet\<close>), and the
  entry a key has after a value has been appended to it.\<close>

definition scopeOf :: "string \<Rightarrow> string \<Rightarrow> ValueSetRef" where
  "scopeOf s ss =
     (if s = [] then BaseRef else if ss = [] then SectionRef (ToLower s)
      else SubSectionRef (ToLower s) ss)"

definition appended :: "ConfigValue option \<Rightarrow> string \<Rightarrow> string option \<Rightarrow> ConfigValue" where
  "appended old key v =
     (case old of
        None \<Rightarrow> \<lparr>Name = ToLower key, OrigCaseName = key, Value = [v]\<rparr>
      | Some cv \<Rightarrow> cv\<lparr>Value := Value cv @ [v]\<rparr>)"



definition advanceBy :: "nat \<Rightarrow> Parser \<Rightarrow> Parser" where
  "advanceBy n self = self\<lparr>charPos := charPos self + n\<rparr>"

text \<open>The text between the quotes of a subsection is \<^emph>\<open>closed\<close> when it holds no quote but
  escaped ones and does not end inside an escape.  Its name, read as the format describes
  it: a backslash before a quote, \<open>t\<close>, \<open>n\<close> or a backslash stands for the quote, a tab, a line
  feed or a backslash; a backslash before any other character vanishes with that
  character; every other character stands for itself.\<close>

fun unescapeSubsection :: "string \<Rightarrow> string" where
  "unescapeSubsection [] = []"
| "unescapeSubsection [c] = (if c = CHR 0x5C then [] else [c])"
| "unescapeSubsection (c # d # cs) =
     (if c = CHR 0x5C then
        (if d = CHR 0x22 then CHR 0x22 # unescapeSubsection cs
         else if d = CHR ''t'' then CHR 0x09 # unescapeSubsection cs
         else if d = CHR ''n'' then CHR 0x0A # unescapeSubsection cs
         else if d = CHR 0x5C then CHR 0x5C # unescapeSubsection cs
         else unescapeSubsection cs)
      else c # unescapeSubsection (d # cs))"

fun closedBody :: "string \<Rightarrow> bool" where
  "closedBody [] = True"
| "closedBody [c] = (c \<noteq> CHR 0x5C \<and> c \<noteq> CHR 0x22)"
| "closedBody (c # d # cs) =
     (if c = CHR 0x5C then closedBody cs else c \<noteq> CHR 0x22 \<and> closedBody (d # cs))"

text \<open>The same two functions, told whether an escape is open: the form the parser's loop
  is compared with.\<close>

fun unescapeFrom :: "bool \<Rightarrow> string \<Rightarrow> string" where
  "unescapeFrom e [] = []"
| "unescapeFrom e (c # cs) =
     (if e then
        (if c = CHR 0x22 then [CHR 0x22] else if c = CHR ''t'' then [CHR 0x09]
         else if c = CHR ''n'' then [CHR 0x0A] else if c = CHR 0x5C then [CHR 0x5C] else [])
        @ unescapeFrom False cs
      else if c = CHR 0x5C then unescapeFrom True cs
      else c # unescapeFrom False cs)"

fun closedFrom :: "bool \<Rightarrow> string \<Rightarrow> bool" where
  "closedFrom e [] = (\<not> e)"
| "closedFrom e (c # cs) =
     (if e then closedFrom False cs
      else if c = CHR 0x5C then closedFrom True cs
      else c \<noteq> CHR 0x22 \<and> closedFrom False cs)"

text \<open>A parser that has just been handed the line \<open>l\<close> as line 1 of an empty store.\<close>

definition lineState :: "string \<Rightarrow> Parser" where
  "lineState l = \<lparr>Reader = [], Config = NewConfig, lineNo = 1, charPos = 0, curLine = l,
                   curSection = [], subSection = []\<rparr>"

section \<open>Facts about the library functions\<close>

lemmas lower_eval = ToLower_def toLowerRune_def char_of_def bit_Suc_0_iff

lemma Split_from_no_sep:
  "c \<notin> set x \<Longrightarrow> Split_from [c] cur (x @ r) = Split_from [c] (cur @ x) r"
  by (induction x arbitrary: cur) auto

lemma Split_from_Join:
  "comps \<noteq> [] \<Longrightarrow> \<forall>x \<in> set comps. c \<notin> set x \<Longrightarrow>
     Split_from [c] cur (Join comps [c]) = (cur @ hd comps) # tl comps"
proof (induction comps "[c]" arbitrary: cur rule: Join.induct)
  case 1
  then show ?case by simp
next
  case (2 x)
  then show ?case using Split_from_no_sep[of c x cur "[]"] by simp
next
  case (3 x y ys)
  then show ?case using Split_from_no_sep[of c x cur "c # Join (y # ys) [c]"] by simp
qed

lemma Split_Join_dot:
  assumes "comps \<noteq> []" "\<forall>x \<in> set comps. CHR ''.'' \<notin> set x"
  shows "Split (Join comps ''.'') ''.'' = comps"
  using Split_from_Join[OF assms, of "[]"] assms(1) by (simp add: Split_def)

section \<open>Dotted keys\<close>

text \<open>
  Claim C4.  A dotted key is the join of its components, none of which holds a dot.  With
  one component \<open>ParseSectionKey\<close> gives a bare key at base scope (no section, no
  subsection); with two, section and key; with three, section, subsection and key; with
  more, the components between the first and the last, joined by dots again, are the
  subsection.  Section and key are lowercased, the subsection is returned as written.
\<close>

theorem ParseSectionKey_components:
  assumes "\<forall>x \<in> set (s # k # m # m' # mid). CHR ''.'' \<notin> set x"
  shows "ParseSectionKey k = ([], [], ToLower k) \<and>
         ParseSectionKey (s @ ''.'' @ k) = (ToLower s, [], ToLower k) \<and>
         ParseSectionKey (s @ ''.'' @ m @ ''.'' @ k) = (ToLower s, m, ToLower k) \<and>
         ParseSectionKey (s @ ''.'' @ Join (m # m' # mid) ''.'' @ ''.'' @ k) =
           (ToLower s, Join (m # m' # mid) ''.'', ToLower k)"
proof -
  have 1: "Split k ''.'' = [k]"
    using Split_Join_dot[of "[k]"] assms by simp
  have 2: "Split (s @ ''.'' @ k) ''.'' = [s, k]"
    using Split_Join_dot[of "[s, k]"] assms by simp
  have 3: "Split (s @ ''.'' @ m @ ''.'' @ k) ''.'' = [s, m, k]"
    using Split_Join_dot[of "[s, m, k]"] assms by simp
  have J: "Join (s # m # m' # mid @ [k]) ''.'' =
             s @ ''.'' @ Join (m # m' # mid) ''.'' @ ''.'' @ k"
    by (induction mid arbitrary: m m') simp_all
  have 4: "Split (s @ ''.'' @ Join (m # m' # mid) ''.'' @ ''.'' @ k) ''.'' =
             s # m # m' # mid @ [k]"
    using Split_Join_dot[of "s # m # m' # mid @ [k]"] assms unfolding J by simp
  have c1: "ParseSectionKey k = ([], [], ToLower k)"
    unfolding ParseSectionKey_def 1 by simp
  have c2: "ParseSectionKey (s @ ''.'' @ k) = (ToLower s, [], ToLower k)"
    unfolding ParseSectionKey_def 2 by simp
  have c3: "ParseSectionKey (s @ ''.'' @ m @ ''.'' @ k) = (ToLower s, m, ToLower k)"
    unfolding ParseSectionKey_def 3 by simp
  have c4: "ParseSectionKey (s @ ''.'' @ Join (m # m' # mid) ''.'' @ ''.'' @ k) =
           (ToLower s, Join (m # m' # mid) ''.'', ToLower k)"
    unfolding ParseSectionKey_def 4 by (simp add: Let_def nth_append)
  show ?thesis using c1 c2 c3 c4 by blast
qed

theorem ParseSectionKey_components_witness:
  "ParseSectionKey ''THAT'' = ([], [], ''that'') \<and>
   ParseSectionKey ''someThing.THAT'' = (''something'', [], ''that'') \<and>
   ParseSectionKey ''someThing.Like.THAT'' = (''something'', ''Like'', ''that'') \<and>
   ParseSectionKey ''someThing.sub.Area.With.Many.THAT'' =
     (''something'', ''sub.Area.With.Many'', ''that'')"
  using ParseSectionKey_components
    [of "''someThing''" "''THAT''" "''Like''" "''Area''" "[''With'', ''Many'']"]
    ParseSectionKey_components
    [of "''someThing''" "''THAT''" "''sub''" "''Area''" "[''With'', ''Many'']"]
  by (simp add: lower_eval)

section \<open>Facts about the store\<close>

lemma toLowerRune_idem [simp]: "toLowerRune (toLowerRune c) = toLowerRune c"
  by (simp add: toLowerRune_def)

lemma ToLower_idem [simp]: "ToLower (ToLower s) = ToLower s"
  by (simp add: ToLower_def)

lemma ToLower_Nil_iff [simp]: "ToLower s = [] \<longleftrightarrow> s = []"
  by (simp add: ToLower_def)

lemma scopeOf_ToLower [simp]: "scopeOf (ToLower s) ss = scopeOf s ss"
  by (simp add: scopeOf_def)

lemma GetConfigValues_lookup:
  "snd (GetConfigValues cfg s ss k False) =
     map_option (Pair (scopeOf s ss)) (ValueSetAt cfg (scopeOf s ss) (ToLower k))"
  by (auto simp: GetConfigValues_def GetConfigValueSet_def GetSection_def GetSubSection_def
        ConfigValueSet_GetConfigValues_def scopeOf_def Let_def
      split: option.splits prod.splits if_splits)

lemma ValueSetAt_AddKeyValue:
  "ValueSetAt (AddKeyValue cfg s ss k v) r =
     (if r = scopeOf s ss
      then (ValueSetAt cfg r)(ToLower k \<mapsto> appended (ValueSetAt cfg r (ToLower k)) k v)
      else ValueSetAt cfg r)"
  by (cases r)
     (auto simp: AddKeyValue_def GetConfigValues_def GetConfigValueSet_def GetSection_def
        GetSubSection_def ConfigValueSet_GetConfigValues_def scopeOf_def appended_def Let_def
        fun_eq_iff
      split: option.splits prod.splits if_splits)

lemma lookup_AddKeyValue:
  "map_option snd (snd (GetConfigValues (AddKeyValue cfg s ss k v) s' ss' k' False)) =
     (if scopeOf s' ss' = scopeOf s ss \<and> ToLower k' = ToLower k
      then Some (appended (map_option snd (snd (GetConfigValues cfg s ss k False))) k v)
      else map_option snd (snd (GetConfigValues cfg s' ss' k' False)))"
  by (simp add: GetConfigValues_lookup ValueSetAt_AddKeyValue option.map_comp comp_def
        option.map_ident)

lemma ValueSetAt_NewConfig: "ValueSetAt NewConfig r = Map.empty"
  by (cases r) (simp_all add: NewConfig_def)

lemma BaseValues_AddKeyValue:
  "BaseValues (AddKeyValue cfg [] ss k v) =
     (BaseValues cfg)(ToLower k \<mapsto> appended (BaseValues cfg (ToLower k)) k v)"
  using ValueSetAt_AddKeyValue[of cfg "[]" ss k v BaseRef]
  by (simp add: scopeOf_def)

lemma wf_config_AddKeyValue:
  "wf_config cfg \<Longrightarrow> wf_config (AddKeyValue cfg s ss k v)"
  unfolding wf_config_def
  by (auto simp: ValueSetAt_AddKeyValue wf_values_def appended_def split: option.splits)

lemma wf_config_NewConfig: "wf_config NewConfig"
proof -
  have "ValueSetAt NewConfig r = Map.empty" for r
    by (cases r) (simp_all add: NewConfig_def)
  then show ?thesis by (simp add: wf_config_def wf_values_def)
qed

lemma ValuesAsInts_loop_nil:
  "None \<in> set vs \<Longrightarrow> snd (ValuesAsInts_loop vs) \<noteq> None"
  by (induction vs rule: ValuesAsInts_loop.induct) (auto split: prod.splits option.splits)

lemma GetInt_nil:
  "None \<in> set (Value cv) \<Longrightarrow> \<exists>e. GetInt cv = (0, False, Some e)"
  using ValuesAsInts_loop_nil[of "Value cv"]
  by (auto simp: GetInt_def ValuesAsInts_def split: prod.splits option.splits)

lemmas strconv_eval = ParseInt_def ParseUint_def IsDigit_def digitVal_def Let_def

lemmas key_eval = GetKeyValuesRaw_def ParseSectionKey_def Split_def GetConfigValues_lookup
  ValueSetAt_AddKeyValue scopeOf_def appended_def

section \<open>Facts about the parser\<close>

lemmas parser_eval = Read.simps readValue.simps ReadLine_def readKeyOrSection_def readSection_def
  readSubsection_def readKeyValue_def GetCurLine_def advance_def makeError_def
  IsSpace_def IsLetter_def IsDigit_def Let_def


lemmas scan_eval = NewConfigFromString_def ScanLines_def dropCR_def

text \<open>The store changes in one place only, where \<open>readKeyValue\<close> calls \<open>AddKeyValue\<close>: a
  property of the store that \<open>AddKeyValue\<close> keeps is kept by \<open>Read\<close>.\<close>

lemma Config_advance [simp]: "Config (advance self) = Config self"
  by (simp add: advance_def)

lemma readValue_loop_Config:
  "readValue_loop self h sr e v q ln = Inr (self', res) \<Longrightarrow> Config self = C \<Longrightarrow> Config self' = C"
proof (induction ln arbitrary: self h sr e v q)
  case Nil
  then show ?case by simp
next
  case (Cons r ln)
  have R: "Config (advance self) = C"
    using Cons.prems(2) by simp
  show ?case
    using Cons.prems(1) Cons.IH[OF _ R] R
    by (auto simp: Let_def split: if_splits)
qed

lemma readValue_Config:
  "readValue self h sr = Inr (self', v) \<Longrightarrow> Config self' = Config self"
proof (induction self h sr arbitrary: self' v rule: readValue.induct)
  case (1 self h sr)
  show ?case
  proof (cases "readValue_loop self h sr False [] False (GetCurLine self)")
    case (Inl e)
    with "1.prems" show ?thesis by (simp add: readValue.simps[of self h sr])
  next
    case (Inr pr)
    obtain self1 res where pr: "pr = (self1, res)" by (cases pr)
    have R1: "Config self1 = Config self"
      using readValue_loop_Config[OF Inr[unfolded pr] refl] .
    show ?thesis
    proof (cases res)
      case (Returned val)
      with "1.prems" Inr pr R1 show ?thesis by (simp add: readValue.simps[of self h sr])
    next
      case (Ended h1 sr1 e val q)
      show ?thesis
      proof (cases "\<not> q \<and> e \<and> ReadLine self1 \<noteq> None")
        case False
        with "1.prems" Inr pr R1 Ended show ?thesis
          by (auto simp: readValue.simps[of self h sr] split: if_splits option.splits)
      next
        case True
        then obtain self2 where s2: "ReadLine self1 = Some self2" by auto
        have L2: "Config self2 = Config self1"
          using s2 by (auto simp: ReadLine_def split: list.splits)
        from True s2 "1.prems" Inr pr Ended obtain self3 nxt where
          r3: "readValue self2 h1 sr1 = Inr (self3, nxt)" and eq: "self' = self3"
          by (auto simp: readValue.simps[of self h sr] split: sum.splits)
        have "Config self3 = Config self2"
          using "1.IH"[OF Inr[unfolded pr] refl Ended _ _ s2 r3] True
          by simp
        with L2 R1 eq show ?thesis by simp
      qed
    qed
  qed
qed

lemma readKeyValue_loop_inv:
  assumes add: "\<And>c s ss k v. P c \<Longrightarrow> P (AddKeyValue c s ss k v)"
  shows "readKeyValue_loop self h d key ln = Inr self' \<Longrightarrow> P (Config self) \<Longrightarrow> P (Config self')"
proof (induction ln arbitrary: self h d key)
  case Nil
  then show ?case by (auto split: if_splits intro: add)
next
  case (Cons r ln)
  have R: "P (Config (advance self))" using Cons.prems(2) by simp
  show ?case
    using Cons.prems(1) Cons.IH[OF _ R] R
    by (auto simp: Let_def split: if_splits sum.splits dest!: readValue_Config intro: add)
qed

lemma readSubsection_loop_Config:
  "readSubsection_loop self i e ln = Inr self' \<Longrightarrow> Config self = C \<Longrightarrow> Config self' = C"
proof (induction ln arbitrary: self i e)
  case Nil
  then show ?case by simp
next
  case (Cons r ln)
  have R: "\<And>f. Config (advance self\<lparr>subSection := f\<rparr>) = C"
    "Config (advance self) = C" using Cons.prems(2) by simp_all
  show ?case
    using Cons.prems(1) Cons.IH[OF _ R(1)] Cons.IH[OF _ R(2)] R
    by (auto simp: Let_def split: if_splits)
qed

lemma readSection_loop_inv:
  assumes add: "\<And>c s ss k v. P c \<Longrightarrow> P (AddKeyValue c s ss k v)"
  shows "readSection_loop self i ln = Inr self' \<Longrightarrow> P (Config self) \<Longrightarrow> P (Config self')"
proof (induction ln arbitrary: self i)
  case Nil
  then show ?case by simp
next
  case (Cons r ln)
  have R: "\<And>f. P (Config (advance self\<lparr>curSection := f\<rparr>))"
    "P (Config (advance self))" using Cons.prems(2) by simp_all
  show ?case
    using Cons.prems(1) Cons.IH[OF _ R(1)] Cons.IH[OF _ R(2)] R
      readKeyValue_loop_inv[of P "advance self" False False "[]" _ self', OF add]
      readSubsection_loop_Config[of _ False False _ self' "Config self"]
    by (auto simp: Let_def readKeyValue_def readSubsection_def split: if_splits)
qed

lemma readKeyOrSection_inv:
  assumes add: "\<And>c s ss k v. P c \<Longrightarrow> P (AddKeyValue c s ss k v)"
  shows "readKeyOrSection_loop self h q e out ln = Inr self' \<Longrightarrow> P (Config self) \<Longrightarrow>
           P (Config self')"
proof (induction ln arbitrary: self h q e out)
  case Nil
  then show ?case by simp
next
  case (Cons r ln)
  have R: "P (Config (advance self))" using Cons.prems(2) by simp
  show ?case
    using Cons.prems(1) Cons.IH[OF _ R] R
      readKeyValue_loop_inv[of P _ False False "[]" _ self', OF add]
      readSection_loop_inv[of P _ False _ self', OF add]
    by (auto simp: Let_def readKeyValue_def readSection_def split: if_splits)
qed

lemma Read_inv:
  assumes add: "\<And>c s ss k v. P c \<Longrightarrow> P (AddKeyValue c s ss k v)"
  shows "Read self = Inr self' \<Longrightarrow> P (Config self) \<Longrightarrow> P (Config self')"
proof (induction self rule: Read.induct)
  case (1 self)
  show ?case
  proof (cases "ReadLine self")
    case None
    with "1.prems" show ?thesis by (simp add: Read.simps[of self])
  next
    case (Some self1)
    have C1: "P (Config self1)"
      using Some "1.prems"(2) by (auto simp: ReadLine_def split: list.splits)
    show ?thesis
    proof (cases "curLine self1 = []")
      case True
      with Some "1.prems" "1.IH"(1)[OF Some True _ C1] show ?thesis
        by (simp add: Read.simps[of self])
    next
      case False
      with Some "1.prems" obtain self2 where
        k: "readKeyOrSection self1 = Inr self2" and r: "Read self2 = Inr self'"
        by (auto simp: Read.simps[of self] split: sum.splits)
      have "P (Config self2)"
        using readKeyOrSection_inv[of P, OF add k[unfolded readKeyOrSection_def] C1] .
      with "1.IH"(2)[OF Some False k r] show ?thesis .
    qed
  qed
qed



lemma advanceBy_0 [simp]: "advanceBy 0 self = self"
  by (simp add: advanceBy_def)










text \<open>The loop of \<open>readSubsection\<close> over the text between the quotes.\<close>

lemma not_space_quote [simp]: "\<not> IsSpace (CHR 0x22)" "\<not> IsSpace (CHR 0x5C)"
  by (simp_all add: IsSpace_def)

lemma GetCurLine_subSection [simp]: "GetCurLine (self\<lparr>subSection := x\<rparr>) = GetCurLine self"
  by (simp add: GetCurLine_def)

lemma unescapeFrom_eq: "unescapeFrom False body = unescapeSubsection body"
  by (induction body rule: unescapeSubsection.induct) auto

lemma closedFrom_eq: "closedFrom False body = closedBody body"
  by (induction body rule: closedBody.induct) auto

lemma subsection_from:
  "closedFrom e body \<Longrightarrow>
     readSubsection_loop self True e (body @ CHR 0x22 # rest) =
     Inr (advanceBy (Suc (length body)) self\<lparr>subSection := subSection self @ unescapeFrom e body\<rparr>)"
proof (induction body arbitrary: self e)
  case Nil
  then show ?case by (simp add: Let_def advance_def advanceBy_def)
next
  case (Cons c body)
  show ?case
  proof (cases e)
    case True
    with Cons.prems have cb: "closedFrom False body" by simp
    show ?thesis
      using True Cons.IH[OF cb]
      by (simp add: Let_def advance_def advanceBy_def)
  next
    case False
    show ?thesis
    proof (cases "c = CHR 0x5C")
      case True
      with False Cons.prems have cb: "closedFrom True body" by simp
      show ?thesis
        using True False Cons.IH[OF cb]
        by (simp add: Let_def advance_def advanceBy_def)
    next
      case c: False
      with False Cons.prems have cb: "closedFrom False body" and nq: "c \<noteq> CHR 0x22" by simp_all
      show ?thesis
        using c nq False Cons.IH[OF cb]
        by (simp add: Let_def advance_def advanceBy_def)
    qed
  qed
qed

lemma subsection_body:
  "closedBody body \<Longrightarrow>
     readSubsection_loop self True False (body @ CHR 0x22 # rest) =
     Inr (advanceBy (Suc (length body)) self\<lparr>subSection := subSection self @ unescapeSubsection body\<rparr>)"
  using subsection_from[of False body self rest]
  by (simp add: unescapeFrom_eq closedFrom_eq)

lemmas string_eval = Config_String_def ConfigValueSet_String_def EscapeValueString_def
  ReplaceAll_def ContainsAny_def BaseValues_AddKeyValue appended_def
  NewConfig_def[THEN arg_cong[of _ _ BaseValues]]

section \<open>Round trip through the serializer\<close>

text \<open>
  Claim C1 says that serializing a store and parsing the text again gives the values back.
  The code does not: \<open>EscapeValueString\<close> writes a tab as a backslash followed by the tab
  itself, which the parser does not read as the escape \<open>\t\<close>, and \<open>String\<close> leaves a value of
  one character unquoted.  Below, the store parsed from the line \<open>k = a\tb\<close> holds the
  value \<open>a\<close>, tab, \<open>b\<close>; its serialization is a tab, \<open>k = a\<close>, a backslash, a tab, \<open>b\<close> and a
  line feed; parsing that text fails at the \<open>b\<close>.  The store parsed from \<open>k = "#"\<close> holds the
  value \<open>#\<close>, is written as \<open>k = #\<close>, and parses again with the empty value.
\<close>

theorem String_reparse_loses_values:
  "NewConfigFromString (''k = a'' @ [CHR 0x5C] @ ''tb'') =
     Inr (AddKeyValue NewConfig [] [] ''k'' (Some (''a'' @ [CHR 0x09] @ ''b''))) \<and>
   Config_String \<lparr>keysOf = (\<lambda>r. [''k'']), sectionsOrder = [], subSectionsOf = (\<lambda>n. [])\<rparr>
       (AddKeyValue NewConfig [] [] ''k'' (Some (''a'' @ [CHR 0x09] @ ''b''))) =
     [CHR 0x09] @ ''k = a'' @ [CHR 0x5C, CHR 0x09] @ ''b'' @ [CHR 0x0A] \<and>
   NewConfigFromString ([CHR 0x09] @ ''k = a'' @ [CHR 0x5C, CHR 0x09] @ ''b'' @ [CHR 0x0A]) =
     Inl \<lparr>Message = UnexpectedInEscape CHR ''b'',
          Line = [CHR 0x09] @ ''k = a'' @ [CHR 0x5C, CHR 0x09] @ ''b'', LineNo = 1, CharPos = 9\<rparr> \<and>
   NewConfigFromString (''k = '' @ [CHR 0x22] @ ''#'' @ [CHR 0x22]) =
     Inr (AddKeyValue NewConfig [] [] ''k'' (Some ''#'')) \<and>
   Config_String \<lparr>keysOf = (\<lambda>r. [''k'']), sectionsOrder = [], subSectionsOf = (\<lambda>n. [])\<rparr>
       (AddKeyValue NewConfig [] [] ''k'' (Some ''#'')) =
     [CHR 0x09] @ ''k = #'' @ [CHR 0x0A] \<and>
   NewConfigFromString ([CHR 0x09] @ ''k = #'' @ [CHR 0x0A]) =
     Inr (AddKeyValue NewConfig [] [] ''k'' (Some []))"
proof -
  have low: "ToLower ''k'' = ''k''" by (simp add: lower_eval)
  have 1: "NewConfigFromString (''k = a'' @ [CHR 0x5C] @ ''tb'') =
     Inr (AddKeyValue NewConfig [] [] ''k'' (Some (''a'' @ [CHR 0x09] @ ''b'')))"
    by (simp add: scan_eval parser_eval)
  have 2: "Config_String \<lparr>keysOf = (\<lambda>r. [''k'']), sectionsOrder = [], subSectionsOf = (\<lambda>n. [])\<rparr>
       (AddKeyValue NewConfig [] [] ''k'' (Some (''a'' @ [CHR 0x09] @ ''b''))) =
     [CHR 0x09] @ ''k = a'' @ [CHR 0x5C, CHR 0x09] @ ''b'' @ [CHR 0x0A]"
    by (simp add: string_eval low IsSpace_def)
  have 3: "NewConfigFromString ([CHR 0x09] @ ''k = a'' @ [CHR 0x5C, CHR 0x09] @ ''b'' @ [CHR 0x0A]) =
     Inl \<lparr>Message = UnexpectedInEscape CHR ''b'',
          Line = [CHR 0x09] @ ''k = a'' @ [CHR 0x5C, CHR 0x09] @ ''b'', LineNo = 1, CharPos = 9\<rparr>"
    by (simp add: scan_eval parser_eval)
  have 4: "NewConfigFromString (''k = '' @ [CHR 0x22] @ ''#'' @ [CHR 0x22]) =
     Inr (AddKeyValue NewConfig [] [] ''k'' (Some ''#''))"
    by (simp add: scan_eval parser_eval)
  have 5: "Config_String \<lparr>keysOf = (\<lambda>r. [''k'']), sectionsOrder = [], subSectionsOf = (\<lambda>n. [])\<rparr>
       (AddKeyValue NewConfig [] [] ''k'' (Some ''#'')) =
     [CHR 0x09] @ ''k = #'' @ [CHR 0x0A]"
    by (simp add: string_eval low IsSpace_def)
  have 6: "NewConfigFromString ([CHR 0x09] @ ''k = #'' @ [CHR 0x0A]) =
     Inr (AddKeyValue NewConfig [] [] ''k'' (Some []))"
    by (simp add: scan_eval parser_eval)
  show ?thesis using 1 2 3 4 5 6 by blast
qed

section \<open>Booleans\<close>

text \<open>
  Claim C2 says that an integer literal converts to true exactly when it is not zero, and
  that any other string must be one of true, yes, false, no.  \<open>ValuesAsBools\<close> tests
  \<open>ParseInt\<close>'s error the wrong way round: the integers \<open>1\<close> and \<open>0\<close> are refused with an
  error, and every string that is not an integer, \<open>true\<close> and \<open>yes\<close> among them, converts
  to false without an error.  \<open>GetBool\<close> hands the result on.
\<close>

theorem ValuesAsBools_inverted_test:
  "ValuesAsBools \<lparr>Name = ''k'', OrigCaseName = ''k'', Value = [Some ''1'']\<rparr> =
     ([False], Some (CannotConvertToBool ''1'')) \<and>
   ValuesAsBools \<lparr>Name = ''k'', OrigCaseName = ''k'', Value = [Some ''0'']\<rparr> =
     ([False], Some (CannotConvertToBool ''0'')) \<and>
   ValuesAsBools \<lparr>Name = ''k'', OrigCaseName = ''k'', Value = [Some ''true'']\<rparr> = ([False], None) \<and>
   ValuesAsBools \<lparr>Name = ''k'', OrigCaseName = ''k'', Value = [Some ''yes'']\<rparr> = ([False], None) \<and>
   ValuesAsBools \<lparr>Name = ''k'', OrigCaseName = ''k'', Value = [Some ''maybe'']\<rparr> = ([False], None) \<and>
   GetBool \<lparr>Name = ''k'', OrigCaseName = ''k'', Value = [Some ''true'']\<rparr> = (False, True, None) \<and>
   GetBool \<lparr>Name = ''k'', OrigCaseName = ''k'', Value = [Some ''1'']\<rparr> =
     (False, False, Some (CannotConvertToBool ''1''))"
  by (simp add: ValuesAsBools_def GetBool_def strconv_eval lower_eval)

section \<open>Writing into a value set\<close>

text \<open>
  Claim C9.  \<open>AddKeyValue\<close> keeps every value set of the store normalised, and so does
  \<open>Read\<close>, which writes through \<open>AddKeyValue\<close> only.  After \<open>AddKeyValue\<close> the entry of the
  key is the entry it had with the value appended (name and original case untouched) or,
  if it had none, a new entry named by the lowercased key, remembering the key as written
  and holding the one value; every entry of another key or another value set is as
  before.  Consequently three writes to a key that had no entry, under names that agree
  up to case, leave the entry with the first name and the three values in order: the
  full lookup returns them in that order and the last-value lookup returns the third.
\<close>

theorem value_set_writes_append:
  assumes wf: "wf_config cfg" and wfp: "wf_config (Config p)" and rd: "Read p = Inr p'"
    and fresh: "snd (GetConfigValues cfg0 s ss k False) = None"
    and same: "ToLower k2 = ToLower k" "ToLower k3 = ToLower k"
  shows "wf_config (AddKeyValue cfg s ss k v) \<and> wf_config (Config p') \<and>
         map_option snd (snd (GetConfigValues (AddKeyValue cfg s ss k v) s ss k False)) =
           Some (appended (map_option snd (snd (GetConfigValues cfg s ss k False))) k v) \<and>
         (scopeOf s' ss' \<noteq> scopeOf s ss \<or> ToLower k' \<noteq> ToLower k \<longrightarrow>
            snd (GetConfigValues (AddKeyValue cfg s ss k v) s' ss' k' False) =
            snd (GetConfigValues cfg s' ss' k' False)) \<and>
         map_option snd (snd (GetConfigValues
            (AddKeyValue (AddKeyValue (AddKeyValue cfg0 s ss k a) s ss k2 b) s ss k3 c)
            s ss k False)) =
           Some \<lparr>Name = ToLower k, OrigCaseName = k, Value = [a, b, c]\<rparr> \<and>
         GetString \<lparr>Name = ToLower k, OrigCaseName = k, Value = [a, b, Some x]\<rparr> = (x, True) \<and>
         ValuesAsStrings \<lparr>Name = ToLower k, OrigCaseName = k, Value = [Some y, Some z, Some x]\<rparr> =
           [y, z, x]"
proof -
  have 1: "wf_config (AddKeyValue cfg s ss k v)"
    using wf by (rule wf_config_AddKeyValue)
  have 2: "wf_config (Config p')"
    using Read_inv[of wf_config, OF wf_config_AddKeyValue rd wfp] .
  have 3: "map_option snd (snd (GetConfigValues (AddKeyValue cfg s ss k v) s ss k False)) =
           Some (appended (map_option snd (snd (GetConfigValues cfg s ss k False))) k v)"
    by (simp add: lookup_AddKeyValue)
  have 4: "scopeOf s' ss' \<noteq> scopeOf s ss \<or> ToLower k' \<noteq> ToLower k \<longrightarrow>
            snd (GetConfigValues (AddKeyValue cfg s ss k v) s' ss' k' False) =
            snd (GetConfigValues cfg s' ss' k' False)"
    by (auto simp: GetConfigValues_lookup ValueSetAt_AddKeyValue)
  have f: "ValueSetAt cfg0 (scopeOf s ss) (ToLower k) = None"
    using fresh by (simp add: GetConfigValues_lookup)
  have 5: "map_option snd (snd (GetConfigValues
            (AddKeyValue (AddKeyValue (AddKeyValue cfg0 s ss k a) s ss k2 b) s ss k3 c)
            s ss k False)) =
           Some \<lparr>Name = ToLower k, OrigCaseName = k, Value = [a, b, c]\<rparr>"
    using f same
    by (simp add: GetConfigValues_lookup ValueSetAt_AddKeyValue appended_def)
  have 6: "GetString \<lparr>Name = ToLower k, OrigCaseName = k, Value = [a, b, Some x]\<rparr> = (x, True)"
    by (simp add: GetString_def ValuesAsStrings_def)
  have 7: "ValuesAsStrings \<lparr>Name = ToLower k, OrigCaseName = k, Value = [Some y, Some z, Some x]\<rparr> =
           [y, z, x]"
    by (simp add: ValuesAsStrings_def)
  show ?thesis using 1 2 3 4 5 6 7 by blast
qed

theorem value_set_writes_append_witness:
  "Read \<lparr>Reader = [''[Arrays]'', ''key1 = a'', ''KEY1 = b'', ''Key1 = c''], Config = NewConfig,
          lineNo = 0, charPos = 0, curLine = [], curSection = [], subSection = []\<rparr> =
     Inr \<lparr>Reader = [],
          Config = AddKeyValue (AddKeyValue (AddKeyValue NewConfig ''Arrays'' [] ''key1'' (Some ''a''))
                     ''Arrays'' [] ''KEY1'' (Some ''b'')) ''Arrays'' [] ''Key1'' (Some ''c''),
          lineNo = 4, charPos = 8, curLine = ''Key1 = c'', curSection = ''Arrays'',
          subSection = []\<rparr> \<and>
   wf_config (AddKeyValue (AddKeyValue (AddKeyValue NewConfig ''Arrays'' [] ''key1'' (Some ''a''))
                     ''Arrays'' [] ''KEY1'' (Some ''b'')) ''Arrays'' [] ''Key1'' (Some ''c'')) \<and>
   GetKeyValuesRaw (AddKeyValue (AddKeyValue (AddKeyValue NewConfig ''Arrays'' [] ''key1'' (Some ''a''))
                     ''Arrays'' [] ''KEY1'' (Some ''b'')) ''Arrays'' [] ''Key1'' (Some ''c''))
       ''arrays.key1'' =
     Some \<lparr>Name = ''key1'', OrigCaseName = ''key1'', Value = [Some ''a'', Some ''b'', Some ''c'']\<rparr> \<and>
   GetKeyValueAsString (AddKeyValue (AddKeyValue (AddKeyValue NewConfig ''Arrays'' [] ''key1'' (Some ''a''))
                     ''Arrays'' [] ''KEY1'' (Some ''b'')) ''Arrays'' [] ''Key1'' (Some ''c''))
       ''arrays.key1'' = (''c'', True) \<and>
   GetKeyValuesStrings (AddKeyValue (AddKeyValue (AddKeyValue NewConfig ''Arrays'' [] ''key1'' (Some ''a''))
                     ''Arrays'' [] ''KEY1'' (Some ''b'')) ''Arrays'' [] ''Key1'' (Some ''c''))
       ''arrays.key1'' = Some [''a'', ''b'', ''c'']"
proof -
  let ?p = "\<lparr>Reader = [''[Arrays]'', ''key1 = a'', ''KEY1 = b'', ''Key1 = c''], Config = NewConfig,
          lineNo = 0, charPos = 0, curLine = [], curSection = [], subSection = []\<rparr>"
  let ?c = "AddKeyValue (AddKeyValue (AddKeyValue NewConfig ''Arrays'' [] ''key1'' (Some ''a''))
                     ''Arrays'' [] ''KEY1'' (Some ''b'')) ''Arrays'' [] ''Key1'' (Some ''c'')"
  let ?p' = "\<lparr>Reader = [], Config = ?c, lineNo = 4, charPos = 8, curLine = ''Key1 = c'',
          curSection = ''Arrays'', subSection = []\<rparr>"
  have rd: "Read ?p = Inr ?p'"
    by (simp add: parser_eval)
  have wf0: "wf_config (Config ?p)"
    by (simp add: wf_config_NewConfig)
  have fresh: "snd (GetConfigValues NewConfig ''Arrays'' [] ''key1'' False) = None"
    by (simp add: GetConfigValues_lookup ValueSetAt_NewConfig del: ValueSetAt.simps)
  have low: "ToLower ''KEY1'' = ToLower ''key1''" "ToLower ''Key1'' = ToLower ''key1''"
    "ToLower ''key1'' = ''key1''" "ToLower ''arrays'' = ''arrays''" "ToLower ''Arrays'' = ''arrays''"
    by (simp_all add: lower_eval)
  note t = value_set_writes_append[OF wf_config_NewConfig wf0 rd fresh low(1,2),
      where v = None and s' = "[]" and ss' = "[]" and k' = "''x''"
        and a = "Some ''a''" and b = "Some ''b''" and c = "Some ''c''"
        and x = "''c''" and y = "''a''" and z = "''b''"]
  have raw: "GetKeyValuesRaw ?c ''arrays.key1'' =
     Some \<lparr>Name = ''key1'', OrigCaseName = ''key1'', Value = [Some ''a'', Some ''b'', Some ''c'']\<rparr>"
    using t by (simp add: GetKeyValuesRaw_def ParseSectionKey_def Split_def low GetConfigValues_lookup scopeOf_def)
  show ?thesis
    using t rd raw
    by (simp add: GetKeyValueAsString_def GetKeyValuesStrings_def GetString_def ValuesAsStrings_def)
qed

section \<open>Keys without a value\<close>

text \<open>
  Claim C10.  For a key whose entry ends with a nil value (a key written without \<open>=\<close>),
  \<open>GetKeyValueAsString\<close> returns the empty string with found set, exactly what it returns
  when the last value is the empty string, and \<open>GetKeyValuesStrings\<close> cannot tell the two
  apart either; \<open>GetKeyValueAsInt\<close> returns an error.
\<close>

theorem boolean_key_getters:
  assumes raw: "GetKeyValuesRaw cfg key = Some cv" and nil: "Value cv = vs @ [None]"
  shows "GetKeyValueAsString cfg key = ([], True) \<and>
         GetString (cv\<lparr>Value := vs @ [Some []]\<rparr>) = ([], True) \<and>
         GetKeyValuesStrings cfg key = Some (ValuesAsStrings (cv\<lparr>Value := vs @ [Some []]\<rparr>)) \<and>
         (\<exists>e. GetKeyValueAsInt cfg key = (0, False, Some e))"
proof -
  have "None \<in> set (Value cv)" using nil by simp
  then have "\<exists>e. GetInt cv = (0, False, Some e)" by (rule GetInt_nil)
  then show ?thesis
    using raw nil
    by (simp add: GetKeyValueAsString_def GetKeyValuesStrings_def GetKeyValueAsInt_def
          GetString_def ValuesAsStrings_def)
qed

theorem boolean_key_getters_witness:
  "Read \<lparr>Reader = [''[core]'', ''  bare''], Config = NewConfig,
          lineNo = 0, charPos = 0, curLine = [], curSection = [], subSection = []\<rparr> =
     Inr \<lparr>Reader = [], Config = AddKeyValue NewConfig ''core'' [] ''bare'' None,
          lineNo = 2, charPos = 6, curLine = ''  bare'', curSection = ''core'', subSection = []\<rparr> \<and>
   GetKeyValuesRaw (AddKeyValue NewConfig ''core'' [] ''bare'' None) ''core.bare'' =
     Some \<lparr>Name = ''bare'', OrigCaseName = ''bare'', Value = [None]\<rparr> \<and>
   GetKeyValueAsString (AddKeyValue NewConfig ''core'' [] ''bare'' None) ''core.bare'' = ([], True) \<and>
   GetKeyValueAsString (AddKeyValue NewConfig ''core'' [] ''bare'' (Some [])) ''core.bare'' = ([], True) \<and>
   GetKeyValueAsInt (AddKeyValue NewConfig ''core'' [] ''bare'' None) ''core.bare'' =
     (0, False, Some CannotConvertEmptyValue)"
proof -
  let ?c = "AddKeyValue NewConfig ''core'' [] ''bare'' None"
  have low: "ToLower ''bare'' = ''bare''" "ToLower ''core'' = ''core''"
    by (simp_all add: lower_eval)
  have raw: "GetKeyValuesRaw ?c ''core.bare'' =
     Some \<lparr>Name = ''bare'', OrigCaseName = ''bare'', Value = [None]\<rparr>"
    by (simp add: key_eval low ValueSetAt_NewConfig del: ValueSetAt.simps)
  have raw2: "GetKeyValuesRaw (AddKeyValue NewConfig ''core'' [] ''bare'' (Some [])) ''core.bare'' =
     Some \<lparr>Name = ''bare'', OrigCaseName = ''bare'', Value = [Some []]\<rparr>"
    by (simp add: key_eval low ValueSetAt_NewConfig del: ValueSetAt.simps)
  have rd: "Read \<lparr>Reader = [''[core]'', ''  bare''], Config = NewConfig,
          lineNo = 0, charPos = 0, curLine = [], curSection = [], subSection = []\<rparr> =
     Inr \<lparr>Reader = [], Config = ?c,
          lineNo = 2, charPos = 6, curLine = ''  bare'', curSection = ''core'', subSection = []\<rparr>"
    by (simp add: parser_eval)
  show ?thesis
    using boolean_key_getters[OF raw, of "[]"] raw raw2 rd
    by (simp add: GetKeyValueAsString_def GetKeyValueAsInt_def GetString_def ValuesAsStrings_def
          GetInt_def ValuesAsInts_def)
qed

section \<open>The key grammar\<close>




section \<open>Subsection names\<close>

text \<open>
  Claim C7.  When the parser stands at the opening quote of a subsection on an ASCII line
  and the text up to the closing quote is closed, \<open>readSubsection\<close> succeeds, stops behind
  the closing quote, and the subsection is that text with every escape replaced: quote,
  tab, line feed and backslash for the four escapes, and nothing for a backslash with any
  other character.
\<close>

theorem readSubsection_escapes:
  assumes "GetCurLine self = CHR 0x22 # body @ CHR 0x22 # rest" and "ascii (curLine self)"
    and "closedBody body"
  shows "readSubsection self =
           Inr (self\<lparr>subSection := unescapeSubsection body,
                     charPos := charPos self + length body + 2\<rparr>)"
proof -
  have "readSubsection self =
          readSubsection_loop (advance (self\<lparr>subSection := []\<rparr>)) True False
             (body @ CHR 0x22 # rest)"
    using assms(1) by (simp add: readSubsection_def Let_def)
  then show ?thesis
    using subsection_body[OF assms(3), of "advance (self\<lparr>subSection := []\<rparr>)" rest]
    by (simp add: advance_def advanceBy_def)
qed

theorem readSubsection_escapes_witness:
  "readSubsection (lineState (''[s '' @ [CHR 0x22] @ ''a'' @ [CHR 0x5C, CHR 0x22] @ ''b'' @
       [CHR 0x5C] @ ''t'' @ [CHR 0x5C] @ ''n'' @ [CHR 0x5C, CHR 0x5C] @ '' c'' @ [CHR 0x5C] @ ''qd'' @
       [CHR 0x22] @ '']'')\<lparr>curSection := ''s'', charPos := 3\<rparr>) =
     Inr (lineState (''[s '' @ [CHR 0x22] @ ''a'' @ [CHR 0x5C, CHR 0x22] @ ''b'' @
       [CHR 0x5C] @ ''t'' @ [CHR 0x5C] @ ''n'' @ [CHR 0x5C, CHR 0x5C] @ '' c'' @ [CHR 0x5C] @ ''qd'' @
       [CHR 0x22] @ '']'')
       \<lparr>curSection := ''s'',
        subSection := ''a'' @ [CHR 0x22] @ ''b'' @ [CHR 0x09, CHR 0x0A, CHR 0x5C] @ '' cd'',
        charPos := 20\<rparr>)"
  using readSubsection_escapes[of
      "lineState (''[s '' @ [CHR 0x22] @ ''a'' @ [CHR 0x5C, CHR 0x22] @ ''b'' @
       [CHR 0x5C] @ ''t'' @ [CHR 0x5C] @ ''n'' @ [CHR 0x5C, CHR 0x5C] @ '' c'' @ [CHR 0x5C] @ ''qd'' @
       [CHR 0x22] @ '']'')\<lparr>curSection := ''s'', charPos := 3\<rparr>"
      "''a'' @ [CHR 0x5C, CHR 0x22] @ ''b'' @
       [CHR 0x5C] @ ''t'' @ [CHR 0x5C] @ ''n'' @ [CHR 0x5C, CHR 0x5C] @ '' c'' @ [CHR 0x5C] @ ''qd''"
      "'']''"]
  by (simp add: lineState_def GetCurLine_def ascii_def)

end
